theory Spec2Isabelle
  imports Complex_Main "HOL-Library.Multiset"
begin

section \<open>Constants (constants.py)\<close>

text \<open>
  The session state of the food-order assistant is a Python dict keyed by the five
  strings of \<^verbatim>\<open>constants.py\<close>. Status values and agent names are plain strings.
\<close>

definition CONFIRMED :: string where "CONFIRMED = ''confirmed''"
definition FINISHED :: string where "FINISHED = ''finished''"
definition IN_PROGRESS :: string where "IN_PROGRESS = ''in_progress''"
definition GETTING_USER_INFO :: string where "GETTING_USER_INFO = ''getting_user_info''"

definition PREORDER_AGENT :: string where "PREORDER_AGENT = ''preorder_agent''"
definition MENU_AGENT :: string where "MENU_AGENT = ''menu_agent''"
definition CONFIRMATION_AGENT :: string where "CONFIRMATION_AGENT = ''confirmation_agent''"
definition USER_INFO_AGENT :: string where "USER_INFO_AGENT = ''user_info_agent''"
definition DONE :: string where "DONE = ''done''"

lemmas status_defs = CONFIRMED_def FINISHED_def IN_PROGRESS_def GETTING_USER_INFO_def
lemmas agent_defs = PREORDER_AGENT_def MENU_AGENT_def CONFIRMATION_AGENT_def
  USER_INFO_AGENT_def DONE_def

section \<open>Session state\<close>

text \<open>
  The dict has one entry per key at most; a key that is absent is \<open>None\<close>. The values
  are what the callbacks of the repository store: strings under \<^verbatim>\<open>order_type\<close>,
  \<^verbatim>\<open>order_status\<close> and \<^verbatim>\<open>name_for_order\<close>, a list of strings under
  \<^verbatim>\<open>current_order\<close>, and a Python \<^verbatim>\<open>float\<close> under \<^verbatim>\<open>order_total\<close>. The type
  of floats is the parameter \<open>'f\<close> (see the section on the ledger).
\<close>

record 'f session_state =
  order_type :: "string option"
  order_status :: "string option"
  current_order :: "string list option"
  order_total :: "'f option"
  name_for_order :: "string option"

text \<open>\<^verbatim>\<open>d.get(key, default)\<close> on an entry of the dict.\<close>

definition dict_get :: "'a option \<Rightarrow> 'a \<Rightarrow> 'a" where
  "dict_get entry dflt = (case entry of None \<Rightarrow> dflt | Some v \<Rightarrow> v)"

text \<open>
  Truth value of \<^verbatim>\<open>state.get(NAME_FOR_ORDER, None)\<close>: \<^verbatim>\<open>None\<close> and the empty
  string are false, every other string is true.
\<close>

definition truthy_str :: "string option \<Rightarrow> bool" where
  "truthy_str entry = (case entry of None \<Rightarrow> False | Some v \<Rightarrow> v \<noteq> [])"

section \<open>Routing (order\_flow\_agent.get\_next\_agent)\<close>

definition get_next_agent :: "'f session_state \<Rightarrow> string" where
  "get_next_agent session_state =
    (if dict_get (order_type session_state) ''UNKNOWN'' = ''UNKNOWN'' then PREORDER_AGENT
     else
       let status = dict_get (order_status session_state) ''UNKNOWN'' in
       if status \<in> set [''UNKNOWN'', IN_PROGRESS] then MENU_AGENT
       else if status = FINISHED then CONFIRMATION_AGENT
       else if status = CONFIRMED \<and> \<not> truthy_str (name_for_order session_state)
         then USER_INFO_AGENT
       else if status = GETTING_USER_INFO then USER_INFO_AGENT
       else DONE)"

text \<open>
  The six routing rules as the specification words them, for comparison with the code:
  a field is UNKNOWN when it is absent or holds the string \<^verbatim>\<open>UNKNOWN\<close>, and
  \<^verbatim>\<open>name_for_order\<close> is unset when the key is absent.
\<close>

definition is_unknown :: "string option \<Rightarrow> bool" where
  "is_unknown entry = (entry = None \<or> entry = Some ''UNKNOWN'')"

definition spec_route :: "'f session_state \<Rightarrow> string" where
  "spec_route s =
    (if is_unknown (order_type s) then PREORDER_AGENT
     else if is_unknown (order_status s) \<or> order_status s = Some IN_PROGRESS then MENU_AGENT
     else if order_status s = Some FINISHED then CONFIRMATION_AGENT
     else if order_status s = Some CONFIRMED \<and> name_for_order s = None then USER_INFO_AGENT
     else if order_status s = Some GETTING_USER_INFO then USER_INFO_AGENT
     else DONE)"

section \<open>Workflow engine (custom\_workflow\_agent.py)\<close>

definition MAX_ITERATIONS :: nat where "MAX_ITERATIONS = 30"
definition DONE_AGENT :: string where "DONE_AGENT = ''done''"

text \<open>
  A sub-agent is what the engine sees of an \<^verbatim>\<open>LlmAgent\<close>: \<^verbatim>\<open>run_async(ctx)\<close> reads
  the invocation context \<open>'c\<close> (the session with its state, the conversation, the model
  behind the agent), yields events \<open>'e\<close> and leaves the context mutated. The third
  component is the exception the run ends with, if any.
\<close>

type_synonym ('c, 'e) llm_agent = "'c \<Rightarrow> 'e list \<times> 'c \<times> string option"

text \<open>
  The values that \<^verbatim>\<open>self.agent_map.get(selected_agent_name, None)\<close> and the
  constant \<^verbatim>\<open>_DONE_AGENT\<close> range over: \<^verbatim>\<open>None\<close>, a string, an agent object.
  \<^verbatim>\<open>==\<close> between an agent object or \<^verbatim>\<open>None\<close> and a string is false; an agent
  object is true in a condition, \<^verbatim>\<open>None\<close> is false.
\<close>

datatype ('c, 'e) py_value = PyNone | PyStr string | PyAgent "('c, 'e) llm_agent"

fun py_eq_str :: "('c, 'e) py_value \<Rightarrow> string \<Rightarrow> bool" where
  "py_eq_str (PyStr s) t = (s = t)"
| "py_eq_str PyNone t = False"
| "py_eq_str (PyAgent a) t = False"

fun py_truthy :: "('c, 'e) py_value \<Rightarrow> bool" where
  "py_truthy PyNone = False"
| "py_truthy (PyStr s) = (s \<noteq> [])"
| "py_truthy (PyAgent a) = True"

text \<open>\<^verbatim>\<open>agent_map: dict[str, LlmAgent]\<close>: every value of the dict is an agent.\<close>

definition agent_map_get ::
  "(string \<rightharpoonup> ('c, 'e) llm_agent) \<Rightarrow> string \<Rightarrow> ('c, 'e) py_value" where
  "agent_map_get m name = (case m name of None \<Rightarrow> PyNone | Some a \<Rightarrow> PyAgent a)"

text \<open>
  What one call of \<^verbatim>\<open>_run_async_impl\<close> leaves behind: the events it yielded, the
  records it logged (\<^verbatim>\<open>logger.info\<close> of the step, \<^verbatim>\<open>logger.info\<close> of the final
  state, \<^verbatim>\<open>logger.error\<close> of an unknown agent name), the context, the value of
  \<^verbatim>\<open>self.step\<close>, and the place where the generator ended: one of the three
  \<^verbatim>\<open>return\<close> statements, the end of the \<^verbatim>\<open>while\<close> loop, or an exception.
\<close>

datatype log_record = INFO_step nat string | INFO_final_state | ERROR_unknown_agent string

datatype exit_point =
  Done_return | Unknown_agent_return | Turn_boundary_return | Loop_exhausted | Raised string

record ('c, 'e) run_result =
  events :: "'e list"
  logged :: "log_record list"
  ctx_out :: 'c
  step_out :: nat
  exit_at :: exit_point

definition emit ::
  "'e list \<Rightarrow> log_record list \<Rightarrow> ('c, 'e) run_result \<Rightarrow> ('c, 'e) run_result" where
  "emit evs logs r = r\<lparr>events := evs @ events r, logged := logs @ logged r\<rparr>"

text \<open>
  The \<^verbatim>\<open>while self.step < _MAX_ITERATIONS\<close> loop, from the value of \<^verbatim>\<open>self.step\<close>
  and the selected name it is entered with. \<open>next_agent_of\<close> is
  \<^verbatim>\<open>self.get_next_agent\<close> applied to the session state of the context.
\<close>

function run_loop ::
  "(string \<rightharpoonup> ('c, 'e) llm_agent) \<Rightarrow> ('c \<Rightarrow> string) \<Rightarrow> nat \<Rightarrow> string \<Rightarrow> 'c
    \<Rightarrow> ('c, 'e) run_result" where
  "run_loop agent_map next_agent_of step selected_agent_name ctx =
    (if step < MAX_ITERATIONS then
       let step' = step + 1;
           info = INFO_step step' selected_agent_name;
           selected_agent = agent_map_get agent_map selected_agent_name
       in
         if py_eq_str selected_agent DONE_AGENT then
           \<lparr>events = [], logged = [info, INFO_final_state], ctx_out = ctx,
            step_out = step', exit_at = Done_return\<rparr>
         else if \<not> py_truthy selected_agent then
           \<lparr>events = [], logged = [info, ERROR_unknown_agent selected_agent_name],
            ctx_out = ctx, step_out = step', exit_at = Unknown_agent_return\<rparr>
         else
           (case selected_agent of
              PyAgent run_async \<Rightarrow>
                (case run_async ctx of
                   (evs, ctx', Some exn) \<Rightarrow>
                     \<lparr>events = evs, logged = [info], ctx_out = ctx', step_out = step',
                      exit_at = Raised exn\<rparr>
                 | (evs, ctx', None) \<Rightarrow>
                     let next_agent = next_agent_of ctx' in
                     if next_agent = selected_agent_name then
                       \<lparr>events = evs, logged = [info], ctx_out = ctx', step_out = step',
                        exit_at = Turn_boundary_return\<rparr>
                     else
                       emit evs [info]
                         (run_loop agent_map next_agent_of step' next_agent ctx'))
            | _ \<Rightarrow>
                \<lparr>events = [], logged = [info], ctx_out = ctx, step_out = step',
                 exit_at = Raised ''AttributeError''\<rparr>)
     else
       \<lparr>events = [], logged = [], ctx_out = ctx, step_out = step,
        exit_at = Loop_exhausted\<rparr>)"
  by pat_completeness auto
termination
  by (relation "measure (\<lambda>(agent_map, next_agent_of, step, name, ctx). MAX_ITERATIONS - step)")
     auto

declare run_loop.simps [simp del]

text \<open>
  The agent object: \<^verbatim>\<open>step\<close> is a field of the instance, \<^verbatim>\<open>0\<close> when the object
  is made; \<^verbatim>\<open>_run_async_impl\<close> reads and writes it and nothing sets it back.
\<close>

record ('c, 'e) custom_workflow_agent =
  agent_map :: "string \<rightharpoonup> ('c, 'e) llm_agent"
  get_next_agent_of :: "'c \<Rightarrow> string"
  step :: nat

definition run_async_impl ::
  "('c, 'e) custom_workflow_agent \<Rightarrow> 'c
    \<Rightarrow> ('c, 'e) custom_workflow_agent \<times> ('c, 'e) run_result" where
  "run_async_impl self ctx =
    (let selected_agent_name = get_next_agent_of self ctx;
         r = run_loop (agent_map self) (get_next_agent_of self) (step self)
               selected_agent_name ctx
     in (self\<lparr>step := step_out r\<rparr>, r))"

text \<open>The steps a call logged, and the names it selected, in order.\<close>

fun steps_logged :: "log_record list \<Rightarrow> (nat \<times> string) list" where
  "steps_logged [] = []"
| "steps_logged (INFO_step n name # logs) = (n, name) # steps_logged logs"
| "steps_logged (_ # logs) = steps_logged logs"

fun is_error :: "log_record \<Rightarrow> bool" where
  "is_error (ERROR_unknown_agent name) = True"
| "is_error _ = False"

text \<open>
  A routing function "that always returns a different handler": every name it returns is
  in the agent map, no agent raises, and after the run of an agent it names another one.
\<close>

definition always_different :: "('c, 'e) custom_workflow_agent \<Rightarrow> bool" where
  "always_different self =
     ((\<forall>ctx. get_next_agent_of self ctx \<in> dom (agent_map self))
      \<and> (\<forall>name run ctx. agent_map self name = Some run \<longrightarrow>
             snd (snd (run ctx)) = None
             \<and> get_next_agent_of self (fst (snd (run ctx))) \<noteq> name))"

text \<open>
  An instance: two agents that pass the turn to each other through the context, and the
  router that reads it.
\<close>

definition flip_a :: "(bool, string) llm_agent" where
  "flip_a c = ([''a''], False, None)"

definition flip_b :: "(bool, string) llm_agent" where
  "flip_b c = ([''b''], True, None)"

definition flip_route :: "bool \<Rightarrow> string" where
  "flip_route c = (if c then ''a'' else ''b'')"

definition flip_flop :: "nat \<Rightarrow> (bool, string) custom_workflow_agent" where
  "flip_flop n =
     \<lparr>agent_map = [''a'' \<mapsto> flip_a, ''b'' \<mapsto> flip_b], get_next_agent_of = flip_route,
      step = n\<rparr>"

section \<open>Order ledger (menu\_agent.AfterModelCallback.update\_order)\<close>

subsection \<open>Strings\<close>

text \<open>
  A string is a list of code points below 256. \<open>is_word_char\<close> is the class
  \<^verbatim>\<open>\w\<close> of Python's \<^verbatim>\<open>re\<close> on \<^verbatim>\<open>str\<close> patterns over these code points
  (letters, digits and the underscore, the Latin-1 letters and digits included);
  \<open>is_space_char\<close> is \<^verbatim>\<open>\s\<close>, which is also what \<^verbatim>\<open>str.strip()\<close> removes.
\<close>

definition is_word_char :: "char \<Rightarrow> bool" where
  "is_word_char c =
    (let n = (of_char c :: nat) in
       (48 \<le> n \<and> n \<le> 57) \<or> (65 \<le> n \<and> n \<le> 90) \<or> n = 95 \<or> (97 \<le> n \<and> n \<le> 122)
       \<or> n = 170 \<or> n = 178 \<or> n = 179 \<or> n = 181 \<or> n = 185 \<or> n = 186
       \<or> (188 \<le> n \<and> n \<le> 190) \<or> (192 \<le> n \<and> n \<le> 214) \<or> (216 \<le> n \<and> n \<le> 246)
       \<or> (248 \<le> n \<and> n \<le> 255))"

definition is_space_char :: "char \<Rightarrow> bool" where
  "is_space_char c =
    (let n = (of_char c :: nat) in
       (9 \<le> n \<and> n \<le> 13) \<or> (28 \<le> n \<and> n \<le> 32) \<or> n = 133 \<or> n = 160)"

text \<open>
  One attempt of the pattern \<^verbatim>\<open>(\w+)\s+\[([^\]]*)\]\<close> at the start of a string: the
  two groups and the text after the match. Each of the three repetitions is greedy and
  is followed by a character outside its class, so the longest run is the only one that
  can match.
\<close>

definition match_at :: "string \<Rightarrow> (string \<times> string \<times> string) option" where
  "match_at s =
    (let command = takeWhile is_word_char s;
         after_command = dropWhile is_word_char s;
         spaces = takeWhile is_space_char after_command;
         after_spaces = dropWhile is_space_char after_command
     in
       if command = [] \<or> spaces = [] then None
       else
         (case after_spaces of
            [] \<Rightarrow> None
          | c # after_bracket \<Rightarrow>
              if c \<noteq> CHR ''['' then None
              else
                (case dropWhile (\<lambda>c. c \<noteq> CHR '']'') after_bracket of
                   [] \<Rightarrow> None
                 | _ # rest \<Rightarrow>
                     Some (command, takeWhile (\<lambda>c. c \<noteq> CHR '']'') after_bracket, rest))))"

text \<open>
  \<^verbatim>\<open>re.findall\<close>: the matches from left to right, each attempt starting where the
  last match ended, or one character further on when there is no match at a position.
\<close>

function findall :: "string \<Rightarrow> (string \<times> string) list" where
  "findall [] = []"
| "findall (c # cs) =
    (case match_at (c # cs) of
       Some (command, items_str, rest) \<Rightarrow> (command, items_str) # findall rest
     | None \<Rightarrow> findall cs)"
  by pat_completeness auto
termination
proof (relation "measure length")
  show "wf (measure length)" by simp
next
  fix c cs and m :: "string \<times> string \<times> string" and command p items_str rest
  assume "match_at (c # cs) = Some m" and "(command, p) = m" and "(items_str, rest) = p"
  then have matched: "match_at (c # cs) = Some (command, items_str, rest)" by simp
  then obtain after_bracket b where
    open_bracket: "dropWhile is_space_char (dropWhile is_word_char (c # cs))
        = CHR ''['' # after_bracket" and
    close_bracket: "dropWhile (\<lambda>c. c \<noteq> CHR '']'') after_bracket = b # rest"
    by (auto simp: match_at_def Let_def split: if_splits list.splits)
  have "length (b # rest) \<le> length after_bracket"
    unfolding close_bracket [symmetric] by (rule length_dropWhile_le)
  moreover have "length (CHR ''['' # after_bracket) \<le> length (dropWhile is_word_char (c # cs))"
    unfolding open_bracket [symmetric] by (rule length_dropWhile_le)
  moreover have "length (dropWhile is_word_char (c # cs)) \<le> length (c # cs)"
    by (rule length_dropWhile_le)
  ultimately have "length rest < length (c # cs)" by simp
  then show "(rest, c # cs) \<in> measure length" by simp
next
  fix c cs
  assume "match_at (c # cs) = None"
  show "(cs, c # cs) \<in> measure length" by simp
qed

text \<open>\<^verbatim>\<open>s.split(sep)\<close> for a separator of one character, and \<^verbatim>\<open>s.strip()\<close>.\<close>

primrec split_on :: "char \<Rightarrow> string \<Rightarrow> string list" where
  "split_on sep [] = [[]]"
| "split_on sep (c # cs) =
    (if c = sep then [] # split_on sep cs
     else (case split_on sep cs of
             [] \<Rightarrow> [[c]]
           | piece # pieces \<Rightarrow> (c # piece) # pieces))"

definition strip :: "string \<Rightarrow> string" where
  "strip s = rev (dropWhile is_space_char (rev (dropWhile is_space_char s)))"

text \<open>
  \<^verbatim>\<open>[item.strip() for item in items_str.split(',') if item.strip()]\<close>
\<close>

definition parse_items :: "string \<Rightarrow> string list" where
  "parse_items items_str =
     filter (\<lambda>item. item \<noteq> []) (map strip (split_on CHR '','' items_str))"

subsection \<open>Numbers\<close>

text \<open>
  A \<^verbatim>\<open>Decimal\<close> is a rational number: sums and differences of decimals are exact
  (the default context rounds a result to 28 significant digits, far beyond a price or
  a total of this program). Python's binary \<^verbatim>\<open>float\<close> is not modelled by a number
  type: the ledger only converts to it and back, so the type of floats is a parameter
  \<open>'f\<close> and its three operations are the fields of a record:
  \<open>float_of_decimal\<close> is \<^verbatim>\<open>float(d)\<close>, \<open>decimal_of_float\<close> is
  \<^verbatim>\<open>Decimal(str(x))\<close>, \<open>float_zero\<close> is the literal \<^verbatim>\<open>0.0\<close>.
\<close>

record 'f float_ops =
  float_of_decimal :: "rat \<Rightarrow> 'f"
  decimal_of_float :: "'f \<Rightarrow> rat"
  float_zero :: 'f

text \<open>
  Python prints a float as the shortest decimal that reads back as the same float, so
  \<^verbatim>\<open>float(Decimal(str(x)))\<close> is \<^verbatim>\<open>x\<close>. Theorems that need this of the
  parameter assume it.
\<close>

definition repr_roundtrip :: "'f float_ops \<Rightarrow> bool" where
  "repr_roundtrip F = (\<forall>x. float_of_decimal F (decimal_of_float F x) = x)"

text \<open>Floats that hold every decimal exactly: the instance the examples are run in.\<close>

definition exact_floats :: "rat float_ops" where
  "exact_floats = \<lparr>float_of_decimal = (\<lambda>d. d), decimal_of_float = (\<lambda>x. x), float_zero = 0\<rparr>"

subsection \<open>The catalog\<close>

text \<open>
  \<^verbatim>\<open>price_map\<close> maps an item name to its price; \<^verbatim>\<open>MenuAgent.__init__\<close> builds it
  from the menu text \<^verbatim>\<open>_MENU\<close>, with \<^verbatim>\<open>Decimal(item.price.strip('$'))\<close>.
\<close>

definition menu_price_map :: "string \<rightharpoonup> rat" where
  "menu_price_map =
     [''King Burger'' \<mapsto> 999 / 100,
      ''Mini Burger'' \<mapsto> 799 / 100,
      ''French Fries'' \<mapsto> 299 / 100,
      ''Onion Rings'' \<mapsto> 399 / 100,
      ''Large Fountain Drink'' \<mapsto> 399 / 100,
      ''Medium Fountain Drink'' \<mapsto> 299 / 100]"

text \<open>\<^verbatim>\<open>self.price_map.get(item, Decimal(0))\<close>\<close>

definition price_of :: "(string \<rightharpoonup> rat) \<Rightarrow> string \<Rightarrow> rat" where
  "price_of price_map item = dict_get (price_map item) 0"

subsection \<open>The update\<close>

text \<open>
  The accumulator of the loops is the pair of the local variables \<^verbatim>\<open>current_order\<close>
  and \<^verbatim>\<open>order_total\<close>, here \<open>cart\<close> and \<open>amount\<close>.
  The body of the inner loop of a \<^verbatim>\<open>remove\<close> command: \<^verbatim>\<open>list.remove\<close> deletes
  the first occurrence and raises \<^verbatim>\<open>ValueError\<close> when there is none; the
  \<^verbatim>\<open>except\<close> clause logs a warning and goes on, the subtraction skipped.
\<close>

definition remove_item ::
  "(string \<rightharpoonup> rat) \<Rightarrow> string \<Rightarrow> string list \<times> rat \<Rightarrow> string list \<times> rat" where
  "remove_item price_map item_to_remove acc =
    (case acc of (cart, amount) \<Rightarrow>
       if item_to_remove \<in> set cart
       then (remove1 item_to_remove cart, amount - price_of price_map item_to_remove)
       else (cart, amount))"

text \<open>The body of the loop over the command blocks.\<close>

definition apply_command ::
  "(string \<rightharpoonup> rat) \<Rightarrow> string \<times> string \<Rightarrow> string list \<times> rat \<Rightarrow> string list \<times> rat" where
  "apply_command price_map block acc =
    (case block of (command, items_str) \<Rightarrow>
     case acc of (cart, amount) \<Rightarrow>
       let items = parse_items items_str in
       if command = ''add'' then
         (cart @ items, fold (\<lambda>item a. a + price_of price_map item) items amount)
       else if command = ''remove'' then
         fold (remove_item price_map) items (cart, amount)
       else (cart, amount))"

definition update_order ::
  "'f float_ops \<Rightarrow> (string \<rightharpoonup> rat) \<Rightarrow> string \<Rightarrow> 'f session_state \<Rightarrow> 'f session_state" where
  "update_order F price_map update state =
    (if update = [] then state
     else
       let state1 = (if current_order state = None then state\<lparr>current_order := Some []\<rparr>
                     else state);
           state2 = (if order_total state1 = None
                     then state1\<lparr>order_total := Some (float_zero F)\<rparr>
                     else state1);
           cart = dict_get (current_order state2) [];
           amount = decimal_of_float F (dict_get (order_total state2) (float_zero F));
           command_blocks = findall update;
           result = fold (apply_command price_map) command_blocks (cart, amount)
       in state2\<lparr>current_order := Some (fst result),
                 order_total := Some (float_of_decimal F (snd result))\<rparr>)"

text \<open>
  The cart and the total as the ledger reads them: an absent \<^verbatim>\<open>current_order\<close> is
  the empty cart, an absent \<^verbatim>\<open>order_total\<close> is \<^verbatim>\<open>0.0\<close>.
\<close>

definition cart_of :: "'f session_state \<Rightarrow> string list" where
  "cart_of state = dict_get (current_order state) []"

definition total_of :: "'f float_ops \<Rightarrow> 'f session_state \<Rightarrow> 'f" where
  "total_of F state = dict_get (order_total state) (float_zero F)"

text \<open>
  An item name that a command can carry: not empty, no comma and no closing bracket in
  it, no white space at either end.
\<close>

definition item_token :: "string \<Rightarrow> bool" where
  "item_token item =
     (item \<noteq> [] \<and> CHR '','' \<notin> set item \<and> CHR '']'' \<notin> set item
      \<and> \<not> is_space_char (hd item) \<and> \<not> is_space_char (last item))"

definition add_command :: "string \<Rightarrow> string" where
  "add_command item = ''add ['' @ item @ '']''"

definition remove_command :: "string \<Rightarrow> string" where
  "remove_command item = ''remove ['' @ item @ '']''"

section \<open>The callbacks of the four agents\<close>

text \<open>
  Each agent asks the model for a structured answer (its \<^verbatim>\<open>OutputSchema\<close>) and its
  \<^verbatim>\<open>AfterModelCallback\<close> writes the answer into the session state. A callback
  returns the new state and the text of the response it passes on. An answer that does
  not validate raises before anything is written and leaves the state as it is.
\<close>

subsection \<open>preorder\_agent\<close>

datatype OrderType = TO_GO | FOR_HERE | UNKNOWN

fun OrderType_name :: "OrderType \<Rightarrow> string" where
  "OrderType_name TO_GO = ''TO_GO''"
| "OrderType_name FOR_HERE = ''FOR_HERE''"
| "OrderType_name UNKNOWN = ''UNKNOWN''"

record preorder_output =
  preorder_agent_response :: string
  preorder_order_type :: OrderType
  user_started_order :: bool

definition preorder_after_model ::
  "preorder_output \<Rightarrow> 'f session_state \<Rightarrow> 'f session_state \<times> string" where
  "preorder_after_model output state =
    ((if preorder_order_type output \<noteq> UNKNOWN
      then state\<lparr>order_type := Some (OrderType_name (preorder_order_type output))\<rparr>
      else state),
     preorder_agent_response output)"

subsection \<open>menu\_agent\<close>

record menu_output =
  menu_agent_response :: string
  order_update :: string
  order_finished :: bool

definition menu_after_model ::
  "'f float_ops \<Rightarrow> (string \<rightharpoonup> rat) \<Rightarrow> menu_output \<Rightarrow> 'f session_state
    \<Rightarrow> 'f session_state \<times> string" where
  "menu_after_model F price_map output state =
    (let state1 = (if order_finished output then state\<lparr>order_status := Some FINISHED\<rparr>
                   else state\<lparr>order_status := Some IN_PROGRESS\<rparr>);
         state2 = update_order F price_map (order_update output) state1
     in (state2, if order_finished output then [] else menu_agent_response output))"

subsection \<open>confirmation\_agent\<close>

record confirmation_output =
  confirmation_agent_response :: string
  order_confirmed :: string

definition confirmation_after_model ::
  "confirmation_output \<Rightarrow> 'f session_state \<Rightarrow> 'f session_state \<times> string" where
  "confirmation_after_model output state =
    ((if order_confirmed output \<noteq> ''unknown'' then
        (if order_confirmed output = ''true'' then state\<lparr>order_status := Some CONFIRMED\<rparr>
         else state\<lparr>order_status := Some IN_PROGRESS\<rparr>)
      else state),
     confirmation_agent_response output)"

subsection \<open>user\_info\_agent\<close>

record user_info_output =
  user_info_agent_response :: string
  user_info_name_for_order :: string
  requires_order_update :: bool

datatype py_error = KeyError string

text \<open>
  \<^verbatim>\<open>BeforeModelCallback\<close>: \<^verbatim>\<open>state[ORDER_STATUS]\<close> raises when the key is absent.
  A response that is not \<^verbatim>\<open>None\<close> is the agent's answer: the model is not called
  and the after-model callback does not run.
\<close>

definition user_info_before_model ::
  "'f session_state \<Rightarrow> py_error + ('f session_state \<times> string option)" where
  "user_info_before_model state =
    (case order_status state of
       None \<Rightarrow> Inl (KeyError ''order_status'')
     | Some status \<Rightarrow>
         if status = CONFIRMED then
           (if truthy_str (name_for_order state) then
              Inr (state,
                   Some (''Alright, '' @ dict_get (name_for_order state) []
                         @ ''! Give me one second as I place the order.''))
            else
              Inr (state\<lparr>order_status := Some GETTING_USER_INFO\<rparr>,
                   Some ''Can I have a name for this order, please?''))
         else Inr (state, None))"

definition user_info_after_model ::
  "user_info_output \<Rightarrow> 'f session_state \<Rightarrow> 'f session_state \<times> string" where
  "user_info_after_model output state =
    (if requires_order_update output then (state\<lparr>order_status := Some IN_PROGRESS\<rparr>, [])
     else (state\<lparr>name_for_order := Some (user_info_name_for_order output)\<rparr>,
           user_info_agent_response output))"

section \<open>Executions of the routed workflow\<close>

text \<open>
  One step of the workflow is one run of the agent that \<open>get_next_agent\<close> names in the
  current state: the engine computes the name from the state before every run and runs
  no other agent. What the model answers is not determined, so a step is a relation:
  any answer of the agent's schema may come back.
\<close>

inductive agent_run ::
  "'f float_ops \<Rightarrow> (string \<rightharpoonup> rat) \<Rightarrow> 'f session_state \<Rightarrow> 'f session_state \<Rightarrow> bool"
  for F :: "'f float_ops" and price_map :: "string \<rightharpoonup> rat" where
  preorder_run:
    "get_next_agent s = PREORDER_AGENT \<Longrightarrow>
     agent_run F price_map s (fst (preorder_after_model output s))"
| menu_run:
    "get_next_agent s = MENU_AGENT \<Longrightarrow>
     agent_run F price_map s (fst (menu_after_model F price_map output s))"
| confirmation_run:
    "get_next_agent s = CONFIRMATION_AGENT \<Longrightarrow>
     agent_run F price_map s (fst (confirmation_after_model output s))"
| user_info_answered:
    "get_next_agent s = USER_INFO_AGENT \<Longrightarrow>
     user_info_before_model s = Inr (s', Some response) \<Longrightarrow>
     agent_run F price_map s s'"
| user_info_run:
    "get_next_agent s = USER_INFO_AGENT \<Longrightarrow>
     user_info_before_model s = Inr (s', None) \<Longrightarrow>
     agent_run F price_map s (fst (user_info_after_model output s'))"

definition initial_state :: "'f session_state" where
  "initial_state =
     \<lparr>order_type = None, order_status = None, current_order = None, order_total = None,
      name_for_order = None\<rparr>"

text \<open>
  An execution is the list of the states the session goes through, the initial state
  first, each state one agent run after the one before.
\<close>

inductive execution ::
  "'f float_ops \<Rightarrow> (string \<rightharpoonup> rat) \<Rightarrow> 'f session_state list \<Rightarrow> bool"
  for F :: "'f float_ops" and price_map :: "string \<rightharpoonup> rat" where
  start: "execution F price_map [initial_state]"
| run: "execution F price_map states \<Longrightarrow> agent_run F price_map (last states) s' \<Longrightarrow>
     execution F price_map (states @ [s'])"

section \<open>The order-flow agent (order\_flow\_agent.create\_agent)\<close>

text \<open>
  The workflow agent over the four sub-agents, routed by \<open>get_next_agent\<close>; the
  context of a run is the session state.
\<close>

definition create_agent ::
  "('f session_state, 'e) llm_agent \<Rightarrow> ('f session_state, 'e) llm_agent
    \<Rightarrow> ('f session_state, 'e) llm_agent \<Rightarrow> ('f session_state, 'e) llm_agent
    \<Rightarrow> ('f session_state, 'e) custom_workflow_agent" where
  "create_agent preorder menu confirmation user_info =
     \<lparr>agent_map =
        [''preorder_agent'' \<mapsto> preorder, ''menu_agent'' \<mapsto> menu,
         ''confirmation_agent'' \<mapsto> confirmation, ''user_info_agent'' \<mapsto> user_info],
      get_next_agent_of = get_next_agent,
      step = 0\<rparr>"

section \<open>Routing: results\<close>

text \<open>
  Claim C1, as the code has it. \<open>get_next_agent\<close> is a total function of the state; it
  returns one of the four agent names or \<^verbatim>\<open>done\<close>, and it follows the six rules in
  order, where rule 4 fires when the status is \<^verbatim>\<open>confirmed\<close> and
  \<^verbatim>\<open>name_for_order\<close> is absent or the empty string.
\<close>

theorem get_next_agent_rules:
  "get_next_agent s =
    (if is_unknown (order_type s) then PREORDER_AGENT
     else if is_unknown (order_status s) \<or> order_status s = Some IN_PROGRESS then MENU_AGENT
     else if order_status s = Some FINISHED then CONFIRMATION_AGENT
     else if order_status s = Some CONFIRMED
          \<and> (name_for_order s = None \<or> name_for_order s = Some [])
       then USER_INFO_AGENT
     else if order_status s = Some GETTING_USER_INFO then USER_INFO_AGENT
     else DONE)
   \<and> get_next_agent s
       \<in> {PREORDER_AGENT, MENU_AGENT, CONFIRMATION_AGENT, USER_INFO_AGENT, DONE}"
  by (cases "order_type s"; cases "order_status s"; cases "name_for_order s")
    (auto simp: get_next_agent_def Let_def dict_get_def truthy_str_def is_unknown_def
       status_defs agent_defs)

text \<open>
  The rules at a state of each kind: the theorem above used at six concrete states, one
  per rule.
\<close>

theorem get_next_agent_rules_witness:
  "get_next_agent (\<lparr>order_type = None, order_status = None, current_order = None,
      order_total = None, name_for_order = None\<rparr> :: rat session_state) = PREORDER_AGENT
   \<and> get_next_agent (\<lparr>order_type = Some ''TO_GO'', order_status = Some ''in_progress'',
      current_order = None, order_total = None, name_for_order = None\<rparr> :: rat session_state)
     = MENU_AGENT
   \<and> get_next_agent (\<lparr>order_type = Some ''TO_GO'', order_status = Some ''finished'',
      current_order = None, order_total = None, name_for_order = None\<rparr> :: rat session_state)
     = CONFIRMATION_AGENT
   \<and> get_next_agent (\<lparr>order_type = Some ''TO_GO'', order_status = Some ''confirmed'',
      current_order = None, order_total = None, name_for_order = None\<rparr> :: rat session_state)
     = USER_INFO_AGENT
   \<and> get_next_agent (\<lparr>order_type = Some ''TO_GO'', order_status = Some ''getting_user_info'',
      current_order = None, order_total = None, name_for_order = Some ''John''\<rparr>
        :: rat session_state)
     = USER_INFO_AGENT
   \<and> get_next_agent (\<lparr>order_type = Some ''TO_GO'', order_status = Some ''confirmed'',
      current_order = None, order_total = None, name_for_order = Some ''John''\<rparr>
        :: rat session_state)
     = DONE"
  by (simp add: get_next_agent_rules is_unknown_def status_defs agent_defs)

text \<open>
  Claim C1 as worded fails where \<^verbatim>\<open>name_for_order\<close> is present but empty: the key
  is set, so rule 4 of the specification does not apply and rule 6 gives the terminal
  name, while the code tests the value's truth and routes to the user-info agent.
\<close>

theorem get_next_agent_empty_name_counterexample:
  "name_for_order (\<lparr>order_type = Some ''TO_GO'', order_status = Some ''confirmed'',
      current_order = None, order_total = None, name_for_order = Some ''''\<rparr>
        :: rat session_state) \<noteq> None
   \<and> spec_route (\<lparr>order_type = Some ''TO_GO'', order_status = Some ''confirmed'',
      current_order = None, order_total = None, name_for_order = Some ''''\<rparr>
        :: rat session_state) = ''done''
   \<and> get_next_agent (\<lparr>order_type = Some ''TO_GO'', order_status = Some ''confirmed'',
      current_order = None, order_total = None, name_for_order = Some ''''\<rparr>
        :: rat session_state) = ''user_info_agent''"
  by (simp add: get_next_agent_def spec_route_def is_unknown_def dict_get_def truthy_str_def
      status_defs agent_defs)

section \<open>Workflow engine: results\<close>

text \<open>One unfolding of the loop, for each way an iteration can go.\<close>

lemma run_loop_exhausted:
  "\<not> i < MAX_ITERATIONS \<Longrightarrow>
   run_loop am na i name ctx =
     \<lparr>events = [], logged = [], ctx_out = ctx, step_out = i, exit_at = Loop_exhausted\<rparr>"
  by (subst run_loop.simps) simp

lemma run_loop_unknown:
  "i < MAX_ITERATIONS \<Longrightarrow> am name = None \<Longrightarrow>
   run_loop am na i name ctx =
     \<lparr>events = [], logged = [INFO_step (Suc i) name, ERROR_unknown_agent name],
      ctx_out = ctx, step_out = Suc i, exit_at = Unknown_agent_return\<rparr>"
  by (subst run_loop.simps) (simp add: agent_map_get_def)

lemma run_loop_raised:
  "i < MAX_ITERATIONS \<Longrightarrow> am name = Some run \<Longrightarrow> run ctx = (evs, ctx', Some exn) \<Longrightarrow>
   run_loop am na i name ctx =
     \<lparr>events = evs, logged = [INFO_step (Suc i) name], ctx_out = ctx',
      step_out = Suc i, exit_at = Raised exn\<rparr>"
  by (subst run_loop.simps) (simp add: agent_map_get_def)

lemma run_loop_turn_boundary:
  "i < MAX_ITERATIONS \<Longrightarrow> am name = Some run \<Longrightarrow> run ctx = (evs, ctx', None) \<Longrightarrow>
   na ctx' = name \<Longrightarrow>
   run_loop am na i name ctx =
     \<lparr>events = evs, logged = [INFO_step (Suc i) name], ctx_out = ctx',
      step_out = Suc i, exit_at = Turn_boundary_return\<rparr>"
  by (subst run_loop.simps) (simp add: agent_map_get_def)

lemma run_loop_hand_off:
  "i < MAX_ITERATIONS \<Longrightarrow> am name = Some run \<Longrightarrow> run ctx = (evs, ctx', None) \<Longrightarrow>
   na ctx' \<noteq> name \<Longrightarrow>
   run_loop am na i name ctx =
     emit evs [INFO_step (Suc i) name] (run_loop am na (Suc i) (na ctx') ctx')"
  by (subst run_loop.simps) (simp add: agent_map_get_def)

text \<open>The five ways are all there are.\<close>

lemma run_loop_cases:
  obtains
    (exhausted) "\<not> i < MAX_ITERATIONS"
  | (unknown) "i < MAX_ITERATIONS" "am name = None"
  | (raised) run evs ctx' exn where "i < MAX_ITERATIONS" "am name = Some run"
      "run ctx = (evs, ctx', Some exn)"
  | (turn_boundary) run evs ctx' where "i < MAX_ITERATIONS" "am name = Some run"
      "run ctx = (evs, ctx', None)" "na ctx' = name"
  | (hand_off) run evs ctx' where "i < MAX_ITERATIONS" "am name = Some run"
      "run ctx = (evs, ctx', None)" "na ctx' \<noteq> name"
proof (cases "i < MAX_ITERATIONS")
  case False
  then show ?thesis by (rule exhausted)
next
  case lt: True
  show ?thesis
  proof (cases "am name")
    case None
    with lt show ?thesis by (rule unknown)
  next
    case (Some run)
    obtain evs ctx' x where r: "run ctx = (evs, ctx', x)" by (cases "run ctx") auto
    show ?thesis
    proof (cases x)
      case None
      with lt Some r show ?thesis by (cases "na ctx' = name") (auto intro: turn_boundary hand_off)
    next
      case (Some exn)
      with lt \<open>am name = Some run\<close> r show ?thesis by (auto intro: raised)
    qed
  qed
qed

text \<open>
  The loop is entered with \<^verbatim>\<open>self.step\<close> at \<open>i\<close>. Every iteration logs its step
  and adds one to the counter, and there are at most \<open>MAX_ITERATIONS - i\<close> of them.
\<close>

lemma run_loop_steps:
  "length (steps_logged (logged (run_loop am na i name ctx))) \<le> MAX_ITERATIONS - i
   \<and> step_out (run_loop am na i name ctx)
       = i + length (steps_logged (logged (run_loop am na i name ctx)))"
proof (induction "MAX_ITERATIONS - i" arbitrary: i name ctx)
  case 0
  then have "\<not> i < MAX_ITERATIONS" by simp
  then show ?case by (simp add: run_loop_exhausted)
next
  case (Suc k)
  then have lt: "i < MAX_ITERATIONS" and k: "k = MAX_ITERATIONS - Suc i" by simp_all
  show ?case
  proof (cases rule: run_loop_cases [where i = i and am = am and name = name and ctx = ctx and na = na])
    case exhausted
    with lt show ?thesis by simp
  next
    case unknown
    then show ?thesis by (simp add: run_loop_unknown)
  next
    case (raised run evs ctx' exn)
    then show ?thesis by (simp add: run_loop_raised)
  next
    case (turn_boundary run evs ctx')
    then show ?thesis by (simp add: run_loop_turn_boundary)
  next
    case (hand_off run evs ctx')
    from Suc.hyps(1) [OF k, of "na ctx'" ctx'] hand_off lt
    show ?thesis by (simp add: run_loop_hand_off emit_def) arith
  qed
qed

text \<open>
  A call that ends at the loop's end has logged no error, and the counter has reached
  the cap.
\<close>

lemma run_loop_exhausted_quiet:
  "exit_at (run_loop am na i name ctx) = Loop_exhausted \<Longrightarrow>
   filter is_error (logged (run_loop am na i name ctx)) = []
   \<and> MAX_ITERATIONS \<le> step_out (run_loop am na i name ctx)"
proof (induction "MAX_ITERATIONS - i" arbitrary: i name ctx)
  case 0
  then have "\<not> i < MAX_ITERATIONS" by simp
  then show ?case by (simp add: run_loop_exhausted)
next
  case (Suc k)
  then have lt: "i < MAX_ITERATIONS" and k: "k = MAX_ITERATIONS - Suc i" by simp_all
  show ?case
  proof (cases rule: run_loop_cases [where i = i and am = am and name = name and ctx = ctx and na = na])
    case exhausted
    with lt show ?thesis by simp
  next
    case unknown
    with Suc.prems show ?thesis by (simp add: run_loop_unknown)
  next
    case (raised run evs ctx' exn)
    with Suc.prems show ?thesis by (simp add: run_loop_raised)
  next
    case (turn_boundary run evs ctx')
    with Suc.prems show ?thesis by (simp add: run_loop_turn_boundary)
  next
    case (hand_off run evs ctx')
    from hand_off Suc.prems have "exit_at (run_loop am na (Suc i) (na ctx') ctx') = Loop_exhausted"
      by (simp add: run_loop_hand_off emit_def)
    from Suc.hyps(1) [OF k this] hand_off
    show ?thesis by (simp add: run_loop_hand_off emit_def)
  qed
qed

text \<open>
  No call ends at the \<^verbatim>\<open>return\<close> of the \<^verbatim>\<open>selected_agent == _DONE_AGENT\<close>
  branch: the test compares the looked-up agent, not the name, with the string.
\<close>

lemma run_loop_never_done:
  "exit_at (run_loop am na i name ctx) \<noteq> Done_return"
proof (induction "MAX_ITERATIONS - i" arbitrary: i name ctx)
  case 0
  then have "\<not> i < MAX_ITERATIONS" by simp
  then show ?case by (simp add: run_loop_exhausted)
next
  case (Suc k)
  then have lt: "i < MAX_ITERATIONS" and k: "k = MAX_ITERATIONS - Suc i" by simp_all
  show ?case
  proof (cases rule: run_loop_cases [where i = i and am = am and name = name and ctx = ctx and na = na])
    case exhausted
    with lt show ?thesis by simp
  next
    case unknown
    then show ?thesis by (simp add: run_loop_unknown)
  next
    case (raised run evs ctx' exn)
    then show ?thesis by (simp add: run_loop_raised)
  next
    case (turn_boundary run evs ctx')
    then show ?thesis by (simp add: run_loop_turn_boundary)
  next
    case (hand_off run evs ctx')
    from Suc.hyps(1) [OF k, of "na ctx'" ctx'] hand_off
    show ?thesis by (simp add: run_loop_hand_off emit_def)
  qed
qed


text \<open>A router that always names another agent runs the loop to the cap.\<close>

lemma run_loop_always_different:
  assumes dom: "\<And>ctx. na ctx \<in> dom am"
    and alt: "\<And>name run ctx. am name = Some run \<Longrightarrow>
        snd (snd (run ctx)) = None \<and> na (fst (snd (run ctx))) \<noteq> name"
  shows "name \<in> dom am \<Longrightarrow>
    exit_at (run_loop am na i name ctx) = Loop_exhausted
    \<and> length (steps_logged (logged (run_loop am na i name ctx))) = MAX_ITERATIONS - i"
proof (induction "MAX_ITERATIONS - i" arbitrary: i name ctx)
  case 0
  then have "\<not> i < MAX_ITERATIONS" by simp
  then show ?case by (simp add: run_loop_exhausted)
next
  case (Suc k)
  then have lt: "i < MAX_ITERATIONS" and k: "k = MAX_ITERATIONS - Suc i" by simp_all
  from Suc.prems obtain run where run: "am name = Some run" by auto
  obtain evs ctx' x where r: "run ctx = (evs, ctx', x)" by (cases "run ctx") auto
  from alt [OF run, of ctx] r have x: "x = None" and ne: "na ctx' \<noteq> name" by simp_all
  from Suc.hyps(1) [OF k dom [of ctx'], of ctx'] lt run r x ne
  show ?case by (simp add: run_loop_hand_off emit_def)
qed

text \<open>
  Claim C2, as the code has it. One call of \<^verbatim>\<open>_run_async_impl\<close> runs at most
  \<open>MAX_ITERATIONS - step self\<close> iterations, which is at most 30, and \<^verbatim>\<open>self.step\<close>
  grows by the number of iterations. When the counter reaches the cap the loop ends and
  the generator finishes as after any other turn: the call ends at the loop's end, not
  with an exception, and no error record is logged. A routing function that always
  returns a different agent, entered with the counter at 0, makes the call run 30
  iterations and end in that way, the counter at 30.
\<close>

theorem run_async_impl_iteration_cap:
  "length (steps_logged (logged (snd (run_async_impl self ctx)))) \<le> MAX_ITERATIONS - step self
   \<and> MAX_ITERATIONS - step self \<le> 30
   \<and> step (fst (run_async_impl self ctx))
       = step self + length (steps_logged (logged (snd (run_async_impl self ctx))))
   \<and> (exit_at (snd (run_async_impl self ctx)) = Loop_exhausted \<longrightarrow>
        filter is_error (logged (snd (run_async_impl self ctx))) = []
        \<and> MAX_ITERATIONS \<le> step (fst (run_async_impl self ctx)))
   \<and> (always_different self \<and> step self = 0 \<longrightarrow>
        exit_at (snd (run_async_impl self ctx)) = Loop_exhausted
        \<and> length (steps_logged (logged (snd (run_async_impl self ctx)))) = 30
        \<and> step (fst (run_async_impl self ctx)) = 30)"
proof -
  let ?r = "run_loop (agent_map self) (get_next_agent_of self) (step self)
      (get_next_agent_of self ctx) ctx"
  have r: "run_async_impl self ctx = (self\<lparr>step := step_out ?r\<rparr>, ?r)"
    by (simp add: run_async_impl_def Let_def)
  have steps: "length (steps_logged (logged ?r)) \<le> MAX_ITERATIONS - step self
      \<and> step_out ?r = step self + length (steps_logged (logged ?r))"
    by (rule run_loop_steps)
  have quiet: "exit_at ?r = Loop_exhausted \<longrightarrow>
      filter is_error (logged ?r) = [] \<and> MAX_ITERATIONS \<le> step_out ?r"
    using run_loop_exhausted_quiet [of "agent_map self" "get_next_agent_of self" "step self"
        "get_next_agent_of self ctx" ctx]
    by blast
  have alt: "always_different self \<and> step self = 0 \<longrightarrow>
      exit_at ?r = Loop_exhausted \<and> length (steps_logged (logged ?r)) = 30
      \<and> step_out ?r = 30"
  proof
    assume a: "always_different self \<and> step self = 0"
    then have d: "\<And>c. get_next_agent_of self c \<in> dom (agent_map self)"
      and n: "\<And>name run c. agent_map self name = Some run \<Longrightarrow>
          snd (snd (run c)) = None \<and> get_next_agent_of self (fst (snd (run c))) \<noteq> name"
      unfolding always_different_def by blast+
    have "exit_at (run_loop (agent_map self) (get_next_agent_of self) 0
              (get_next_agent_of self ctx) ctx) = Loop_exhausted
        \<and> length (steps_logged (logged (run_loop (agent_map self) (get_next_agent_of self) 0
              (get_next_agent_of self ctx) ctx))) = MAX_ITERATIONS - 0"
    proof (rule run_loop_always_different)
      show "\<And>c. get_next_agent_of self c \<in> dom (agent_map self)" by (rule d)
      show "\<And>name run c. agent_map self name = Some run \<Longrightarrow>
          snd (snd (run c)) = None \<and> get_next_agent_of self (fst (snd (run c))) \<noteq> name"
        by (rule n)
      show "get_next_agent_of self ctx \<in> dom (agent_map self)" by (rule d)
    qed
    with a have "exit_at ?r = Loop_exhausted \<and> length (steps_logged (logged ?r)) = 30"
      by (simp add: MAX_ITERATIONS_def)
    with a steps
    show "exit_at ?r = Loop_exhausted \<and> length (steps_logged (logged ?r)) = 30
        \<and> step_out ?r = 30"
      by simp
  qed
  have cap: "MAX_ITERATIONS - step self \<le> 30" by (simp add: MAX_ITERATIONS_def)
  from steps quiet alt cap show ?thesis unfolding r by auto
qed

text \<open>The two agents that pass the turn to each other are such a router.\<close>

lemma always_different_flip_flop: "always_different (flip_flop n)"
  by (auto simp: always_different_def flip_flop_def flip_route_def flip_a_def flip_b_def
      split: if_splits)

text \<open>The theorem at this instance, the counter at 0.\<close>

theorem run_async_impl_iteration_cap_witness:
  "always_different (flip_flop 0) \<and> step (flip_flop 0) = 0
   \<and> exit_at (snd (run_async_impl (flip_flop 0) True)) = Loop_exhausted
   \<and> length (steps_logged (logged (snd (run_async_impl (flip_flop 0) True)))) = 30
   \<and> filter is_error (logged (snd (run_async_impl (flip_flop 0) True))) = []
   \<and> step (fst (run_async_impl (flip_flop 0) True)) = 30"
  using run_async_impl_iteration_cap [of "flip_flop 0" True] always_different_flip_flop [of 0]
  by (simp add: flip_flop_def)

text \<open>
  Claim C2 as worded fails at this instance. The first call runs 30 agents and then ends
  at the loop's end: no exception, no error record, so the cap is not a fatal abort with
  a diagnostic and there is no 31st step. The second call on the same agent object finds
  the counter at 30 and runs nothing: the counter does not start fresh.
\<close>

theorem flip_flop_silent_stop_counterexample:
  "exit_at (snd (run_async_impl (flip_flop 0) True)) = Loop_exhausted
   \<and> length (events (snd (run_async_impl (flip_flop 0) True))) = 30
   \<and> filter is_error (logged (snd (run_async_impl (flip_flop 0) True))) = []
   \<and> step (fst (run_async_impl (flip_flop 0) True)) = 30
   \<and> snd (run_async_impl (fst (run_async_impl (flip_flop 0) True)) True)
       = \<lparr>events = [], logged = [], ctx_out = True, step_out = 30, exit_at = Loop_exhausted\<rparr>"
  by code_simp


text \<open>
  Claim C3 on the code. In the state of the specification's last scenario (type chosen,
  order confirmed, name "John") the router returns \<^verbatim>\<open>done\<close>. The order-flow agent
  has no agent of that name, the lookup gives \<^verbatim>\<open>None\<close>, the comparison of
  \<^verbatim>\<open>None\<close> with \<^verbatim>\<open>"done"\<close> is false, and the call logs the error
  \<^verbatim>\<open>Unknown agent name: done\<close> and ends at the \<^verbatim>\<open>return\<close> of the unknown-agent
  branch. No call, whatever the agent map and the router, ends at the \<^verbatim>\<open>return\<close>
  of the branch for \<^verbatim>\<open>done\<close>.
\<close>

theorem done_takes_unknown_agent_path:
  "run_async_impl (create_agent preorder menu confirmation user_info)
      \<lparr>order_type = Some ''TO_GO'', order_status = Some ''confirmed'', current_order = None,
       order_total = None, name_for_order = Some ''John''\<rparr>
    = ((create_agent preorder menu confirmation user_info)\<lparr>step := 1\<rparr>,
       \<lparr>events = [],
        logged = [INFO_step 1 ''done'', ERROR_unknown_agent ''done''],
        ctx_out = \<lparr>order_type = Some ''TO_GO'', order_status = Some ''confirmed'',
          current_order = None, order_total = None, name_for_order = Some ''John''\<rparr>,
        step_out = 1,
        exit_at = Unknown_agent_return\<rparr>)
   \<and> exit_at (run_loop am na i name ctx) \<noteq> Done_return"
proof
  have route: "get_next_agent \<lparr>order_type = Some ''TO_GO'', order_status = Some ''confirmed'',
      current_order = None, order_total = None, name_for_order = Some ''John''\<rparr> = ''done''"
    by (simp add: get_next_agent_def dict_get_def truthy_str_def status_defs agent_defs)
  show "run_async_impl (create_agent preorder menu confirmation user_info)
      \<lparr>order_type = Some ''TO_GO'', order_status = Some ''confirmed'', current_order = None,
       order_total = None, name_for_order = Some ''John''\<rparr>
    = ((create_agent preorder menu confirmation user_info)\<lparr>step := 1\<rparr>,
       \<lparr>events = [],
        logged = [INFO_step 1 ''done'', ERROR_unknown_agent ''done''],
        ctx_out = \<lparr>order_type = Some ''TO_GO'', order_status = Some ''confirmed'',
          current_order = None, order_total = None, name_for_order = Some ''John''\<rparr>,
        step_out = 1,
        exit_at = Unknown_agent_return\<rparr>)"
    by (simp add: run_async_impl_def create_agent_def route run_loop_unknown MAX_ITERATIONS_def)
  show "exit_at (run_loop am na i name ctx) \<noteq> Done_return"
    by (rule run_loop_never_done)
qed

text \<open>An iteration below the cap whose name is in the agent map runs that agent.\<close>

lemma run_loop_runs_agent:
  assumes "i < MAX_ITERATIONS" and "am name = Some run" and "run ctx = (evs, ctx', x)"
  shows "\<exists>more_events more_logs.
    events (run_loop am na i name ctx) = evs @ more_events
    \<and> logged (run_loop am na i name ctx) = INFO_step (Suc i) name # more_logs"
proof (cases x)
  case (Some exn)
  with assms show ?thesis by (simp add: run_loop_raised)
next
  case None
  show ?thesis
  proof (cases "na ctx' = name")
    case True
    with assms None show ?thesis by (simp add: run_loop_turn_boundary)
  next
    case False
    with assms None show ?thesis by (simp add: run_loop_hand_off emit_def)
  qed
qed

text \<open>
  Claim C4, as the code has it. After the run of an agent (an iteration below the cap,
  the agent in the map, no exception) the router is asked again on the context the agent
  left. If it names the agent that just ran, the call ends there with the agent's events
  (the turn boundary). If it names another, the rest of the call is the loop entered with
  that name, the updated context and the counter one higher; and if the counter is still
  below the cap and that name is in the agent map, that agent runs next in the same
  call: its events follow, and its step is the next one logged.
\<close>

theorem run_loop_after_agent:
  assumes "i < MAX_ITERATIONS" and "am name = Some run" and "run ctx = (evs, ctx', None)"
  shows "(na ctx' = name \<longrightarrow>
      run_loop am na i name ctx =
        \<lparr>events = evs, logged = [INFO_step (Suc i) name], ctx_out = ctx',
         step_out = Suc i, exit_at = Turn_boundary_return\<rparr>)
    \<and> (na ctx' \<noteq> name \<longrightarrow>
      run_loop am na i name ctx =
        emit evs [INFO_step (Suc i) name] (run_loop am na (Suc i) (na ctx') ctx'))
    \<and> (na ctx' \<noteq> name \<and> Suc i < MAX_ITERATIONS \<and> am (na ctx') = Some run'
        \<and> run' ctx' = (evs', ctx'', x') \<longrightarrow>
      take (length evs + length evs') (events (run_loop am na i name ctx)) = evs @ evs'
      \<and> take 2 (steps_logged (logged (run_loop am na i name ctx)))
          = [(Suc i, name), (Suc (Suc i), na ctx')])"
proof (intro conjI impI)
  assume "na ctx' = name"
  with assms show "run_loop am na i name ctx =
      \<lparr>events = evs, logged = [INFO_step (Suc i) name], ctx_out = ctx',
       step_out = Suc i, exit_at = Turn_boundary_return\<rparr>"
    by (simp add: run_loop_turn_boundary)
next
  assume "na ctx' \<noteq> name"
  with assms show "run_loop am na i name ctx =
      emit evs [INFO_step (Suc i) name] (run_loop am na (Suc i) (na ctx') ctx')"
    by (simp add: run_loop_hand_off)
next
  assume h: "na ctx' \<noteq> name \<and> Suc i < MAX_ITERATIONS \<and> am (na ctx') = Some run'
      \<and> run' ctx' = (evs', ctx'', x')"
  with assms have unfold: "run_loop am na i name ctx =
      emit evs [INFO_step (Suc i) name] (run_loop am na (Suc i) (na ctx') ctx')"
    by (simp add: run_loop_hand_off)
  from h obtain more_events more_logs where
    more: "events (run_loop am na (Suc i) (na ctx') ctx') = evs' @ more_events"
      "logged (run_loop am na (Suc i) (na ctx') ctx')
        = INFO_step (Suc (Suc i)) (na ctx') # more_logs"
    using run_loop_runs_agent [of "Suc i" am "na ctx'" run' ctx' evs' ctx'' x' na] by blast
  show "take (length evs + length evs') (events (run_loop am na i name ctx)) = evs @ evs'"
    by (simp add: unfold emit_def more)
  show "take 2 (steps_logged (logged (run_loop am na i name ctx)))
      = [(Suc i, name), (Suc (Suc i), na ctx')]"
    by (simp add: unfold emit_def more)
qed

text \<open>
  The theorem at two instances: an agent after which the router names it again, and the
  two agents that pass the turn to each other.
\<close>

theorem run_loop_after_agent_witness:
  "run_loop [''a'' \<mapsto> flip_b] flip_route 0 ''a'' True =
     \<lparr>events = [''b''], logged = [INFO_step 1 ''a''], ctx_out = True, step_out = 1,
      exit_at = Turn_boundary_return\<rparr>
   \<and> take 2 (events (run_loop [''a'' \<mapsto> flip_a, ''b'' \<mapsto> flip_b] flip_route 0 ''a'' True))
       = [''a'', ''b'']
   \<and> take 2 (steps_logged
        (logged (run_loop [''a'' \<mapsto> flip_a, ''b'' \<mapsto> flip_b] flip_route 0 ''a'' True)))
       = [(1, ''a''), (2, ''b'')]"
proof -
  have lt: "(0::nat) < MAX_ITERATIONS" by (simp add: MAX_ITERATIONS_def)
  have stay: "[''a'' \<mapsto> flip_b] ''a'' = Some flip_b" by simp
  have b_run: "flip_b True = ([''b''], True, None)" by (simp add: flip_b_def)
  have first: "[''a'' \<mapsto> flip_a, ''b'' \<mapsto> flip_b] ''a'' = Some flip_a" by simp
  have a_run: "flip_a True = ([''a''], False, None)" by (simp add: flip_a_def)
  have b_run': "flip_b False = ([''b''], True, None)" by (simp add: flip_b_def)
  from run_loop_after_agent [where i = 0 and am = "[''a'' \<mapsto> flip_b]" and name = "''a''"
      and run = flip_b and ctx = True and evs = "[''b'']" and ctx' = True and na = flip_route,
      OF lt stay b_run, THEN conjunct1]
  have same: "run_loop [''a'' \<mapsto> flip_b] flip_route 0 ''a'' True =
     \<lparr>events = [''b''], logged = [INFO_step 1 ''a''], ctx_out = True, step_out = 1,
      exit_at = Turn_boundary_return\<rparr>"
    by (simp add: flip_route_def)
  from run_loop_after_agent [where i = 0 and am = "[''a'' \<mapsto> flip_a, ''b'' \<mapsto> flip_b]"
      and name = "''a''" and run = flip_a and ctx = True and evs = "[''a'']" and ctx' = False
      and na = flip_route and run' = flip_b and evs' = "[''b'']" and ctx'' = True
      and x' = None, OF lt first a_run, THEN conjunct2, THEN conjunct2]
  have other: "take 2 (events (run_loop [''a'' \<mapsto> flip_a, ''b'' \<mapsto> flip_b] flip_route 0 ''a''
        True)) = [''a'', ''b'']
    \<and> take 2 (steps_logged
        (logged (run_loop [''a'' \<mapsto> flip_a, ''b'' \<mapsto> flip_b] flip_route 0 ''a'' True)))
       = [(1, ''a''), (2, ''b'')]"
    by (simp add: flip_route_def b_run' MAX_ITERATIONS_def numeral_2_eq_2)
  from same other show ?thesis by blast
qed

text \<open>
  Claim C4 as worded fails on the 30th iteration. The counter is at 29 when the call
  starts, agent \<^verbatim>\<open>a\<close> runs, and the router then names \<^verbatim>\<open>b\<close>, another agent of
  the map and not \<^verbatim>\<open>done\<close>; the loop does not continue with \<^verbatim>\<open>b\<close>: the call
  ends with the events of \<^verbatim>\<open>a\<close> alone.
\<close>

theorem hand_off_at_cap_counterexample:
  "get_next_agent_of (flip_flop 29) True = ''a''
   \<and> ''a'' \<in> dom (agent_map (flip_flop 29))
   \<and> flip_a True = ([''a''], False, None)
   \<and> get_next_agent_of (flip_flop 29) False = ''b''
   \<and> ''b'' \<noteq> DONE_AGENT
   \<and> ''b'' \<in> dom (agent_map (flip_flop 29))
   \<and> snd (run_async_impl (flip_flop 29) True) =
       \<lparr>events = [''a''], logged = [INFO_step 30 ''a''], ctx_out = False, step_out = 30,
        exit_at = Loop_exhausted\<rparr>"
proof -
  have "snd (run_async_impl (flip_flop 29) True) =
       \<lparr>events = [''a''], logged = [INFO_step 30 ''a''], ctx_out = False, step_out = 30,
        exit_at = Loop_exhausted\<rparr>"
    by code_simp
  then show ?thesis
    by (simp add: flip_flop_def flip_a_def flip_route_def DONE_AGENT_def)
qed

end
